theory Spec2Isabelle
  imports Main "HOL-Library.Word"
begin

section \<open>The ERC-20 token chaincode (token-erc-20/chaincode-go/chaincode/tokenerc20.go)\<close>

text \<open>
  The contract keeps every balance, every allowance and the total supply in one key-value
  world state, as decimal text. Go's \<^verbatim>\<open>int\<close> is the 64-bit two's-complement integer of the
  platforms chaincode runs on: \<open>+\<close> and \<open>-\<close> wrap around, comparisons are signed.
\<close>

type_synonym goint = "64 word"

subsection \<open>strconv.Itoa and strconv.Atoi\<close>

text \<open>
  \<^verbatim>\<open>strconv.Itoa\<close> prints the decimal digits of the magnitude, most significant first, after
  a minus sign for a negative number.
\<close>

function formatBits :: "nat \<Rightarrow> string" where
  "formatBits u = (if u < 10 then [char_of (48 + u)]
                   else formatBits (u div 10) @ [char_of (48 + u mod 10)])"
  by pat_completeness auto
termination
  by (relation "measure id") auto

declare formatBits.simps [simp del]

definition Itoa :: "goint \<Rightarrow> string" where
  "Itoa i = (if i <s 0 then CHR ''-'' # formatBits (nat (- sint i))
             else formatBits (nat (sint i)))"

text \<open>
  \<^verbatim>\<open>strconv.Atoi\<close> is \<^verbatim>\<open>ParseInt(s, 10, 0)\<close>: an optional sign, then \<^verbatim>\<open>ParseUint\<close> on the
  rest, which reads the bytes from the left, stops with a syntax error at the first byte
  that is not a decimal digit and with a range error as soon as the value leaves 64 bits.
  A syntax error returns 0, a range error the nearest representable value. Every call
  site of the contract discards the error (\<^verbatim>\<open>x, _ = strconv.Atoi(...)\<close>), so \<open>Atoi\<close> is the
  returned value alone.
\<close>

datatype parse_result = Parsed nat | ErrSyntax | ErrRange

definition maxUint64 :: nat where
  "maxUint64 = 2 ^ 64 - 1"

fun ParseUint_loop :: "nat \<Rightarrow> string \<Rightarrow> parse_result" where
  "ParseUint_loop n [] = Parsed n"
| "ParseUint_loop n (c # cs) =
     (if \<not> (48 \<le> (of_char c :: nat) \<and> (of_char c :: nat) \<le> 57) then ErrSyntax
      else if n \<ge> maxUint64 div 10 + 1 then ErrRange
      else if n * 10 + (of_char c - 48) > maxUint64 then ErrRange
      else ParseUint_loop (n * 10 + (of_char c - 48)) cs)"

definition ParseUint :: "string \<Rightarrow> parse_result" where
  "ParseUint s = (if s = [] then ErrSyntax else ParseUint_loop 0 s)"

definition ParseInt_signed :: "bool \<Rightarrow> string \<Rightarrow> int" where
  "ParseInt_signed neg s =
     (case ParseUint s of
        ErrSyntax \<Rightarrow> 0
      | ErrRange \<Rightarrow> (if neg then - (2 ^ 63) else 2 ^ 63 - 1)
      | Parsed un \<Rightarrow>
          (if \<not> neg \<and> un \<ge> 2 ^ 63 then 2 ^ 63 - 1
           else if neg \<and> un > 2 ^ 63 then - (2 ^ 63)
           else if neg then - int un else int un))"

definition ParseInt :: "string \<Rightarrow> int" where
  "ParseInt s =
     (case s of
        [] \<Rightarrow> 0
      | c # cs \<Rightarrow>
          (if c = CHR ''+'' then ParseInt_signed False cs
           else if c = CHR ''-'' then ParseInt_signed True cs
           else ParseInt_signed False s))"

definition Atoi :: "string \<Rightarrow> goint" where
  "Atoi s = word_of_int (ParseInt s)"

subsection \<open>The transaction context\<close>

text \<open>
  The contract reaches its collaborators through the transaction context: the identity
  of the caller (\<^verbatim>\<open>GetClientIdentity().GetID()\<close>, \<^verbatim>\<open>GetMSPID()\<close>), the world state
  (\<^verbatim>\<open>GetStub().GetState\<close>, \<^verbatim>\<open>PutState\<close>, \<^verbatim>\<open>CreateCompositeKey\<close>) and the event of the
  transaction (\<^verbatim>\<open>SetEvent\<close>). The store and the identity service are taken to be
  available: \<open>get(key)\<close> returns the committed bytes or nothing, the caller has an
  identifier and an organization, the event name of every \<^verbatim>\<open>SetEvent\<close> call is a non-empty
  constant and \<^verbatim>\<open>json.Marshal\<close> of the three-field event cannot fail, so the
  \<^verbatim>\<open>err != nil\<close> branch after these calls has no counterpart below; \<^verbatim>\<open>log.Printf\<close> has no
  effect on the ledger. The two calls that refuse some arguments keep their error:
  \<^verbatim>\<open>PutState\<close> refuses the empty key, \<^verbatim>\<open>CreateCompositeKey\<close> refuses an object type
  or attribute that is not valid UTF-8 or contains U+0000 or U+10FFFF.

  A read returns the committed world state, not the writes of the running transaction;
  the writes become visible when the transaction commits (\<open>commit\<close>). A transaction that
  returns an error commits nothing.
\<close>

type_synonym store = "string \<rightharpoonup> string"

record event =
  From :: string
  To :: string
  Value :: goint

record ctx =
  clientID :: string
  clientMSPID :: string
  world :: store
  writes :: store
  txEvent :: "(string \<times> event) option"

datatype error =
    AccountNotFound string
  | SameAddress
  | NegativeAmount
  | InsufficientFunds string
  | AmountNotPositive
  | InvalidKey
  | EmptyKey
  | InsufficientAllowance
  | Unauthorized string

definition TokenName :: string where
  "TokenName = ''MSc Token''"

definition totalSupplyKey :: string where
  "totalSupplyKey = ''totalSupply''"

definition allowancePrefix :: string where
  "allowancePrefix = ''allowance''"

definition GetState :: "ctx \<Rightarrow> string \<Rightarrow> string option" where
  "GetState c key = world c key"

text \<open>\<^verbatim>\<open>PutState\<close> returns the error ``key must not be an empty string'' for the empty key.\<close>

definition PutState :: "ctx \<Rightarrow> string \<Rightarrow> string \<Rightarrow> error option \<times> ctx" where
  "PutState c key v =
     (if key = [] then (Some EmptyKey, c)
      else (None, c\<lparr>writes := (writes c)(key \<mapsto> v)\<rparr>))"

definition SetEvent :: "ctx \<Rightarrow> string \<Rightarrow> event \<Rightarrow> ctx" where
  "SetEvent c name payload = c\<lparr>txEvent := Some (name, payload)\<rparr>"

text \<open>
  \<^verbatim>\<open>CreateCompositeKey\<close> validates the object type and every attribute
  (\<^verbatim>\<open>validateCompositeKeyAttribute\<close>): the bytes must be valid UTF-8 (\<^verbatim>\<open>utf8.ValidString\<close>:
  no stray continuation byte, no overlong form, no surrogate, nothing above U+10FFFF) and
  no rune may be U+0000 or U+10FFFF. The key is the namespace byte 0, the object type and
  every attribute, each followed by the byte 0.
\<close>

definition continuation :: "nat \<Rightarrow> bool" where
  "continuation b = (128 \<le> b \<and> b \<le> 191)"

fun utf8_runes :: "nat list \<Rightarrow> nat list option" where
  "utf8_runes [] = Some []"
| "utf8_runes (b0 # bs) =
     (if b0 < 128 then map_option ((#) b0) (utf8_runes bs)
      else if 194 \<le> b0 \<and> b0 \<le> 223 then
        (case bs of
           b1 # r \<Rightarrow>
             (if continuation b1
              then map_option ((#) ((b0 - 192) * 64 + (b1 - 128))) (utf8_runes r)
              else None)
         | _ \<Rightarrow> None)
      else if 224 \<le> b0 \<and> b0 \<le> 239 then
        (case bs of
           b1 # b2 # r \<Rightarrow>
             (if (if b0 = 224 then 160 else 128) \<le> b1 \<and> b1 \<le> (if b0 = 237 then 159 else 191)
                 \<and> continuation b2
              then map_option ((#) ((b0 - 224) * 4096 + (b1 - 128) * 64 + (b2 - 128)))
                     (utf8_runes r)
              else None)
         | _ \<Rightarrow> None)
      else if 240 \<le> b0 \<and> b0 \<le> 244 then
        (case bs of
           b1 # b2 # b3 # r \<Rightarrow>
             (if (if b0 = 240 then 144 else 128) \<le> b1 \<and> b1 \<le> (if b0 = 244 then 143 else 191)
                 \<and> continuation b2 \<and> continuation b3
              then map_option
                     ((#) ((b0 - 240) * 262144 + (b1 - 128) * 4096 + (b2 - 128) * 64 + (b3 - 128)))
                     (utf8_runes r)
              else None)
         | _ \<Rightarrow> None)
      else None)"

definition minUnicodeRuneValue :: nat where
  "minUnicodeRuneValue = 0"

definition maxUnicodeRuneValue :: nat where
  "maxUnicodeRuneValue = 1114111"

definition validateCompositeKeyAttribute :: "string \<Rightarrow> bool" where
  "validateCompositeKeyAttribute str =
     (case utf8_runes (map of_char str) of
        None \<Rightarrow> False
      | Some runes \<Rightarrow> minUnicodeRuneValue \<notin> set runes \<and> maxUnicodeRuneValue \<notin> set runes)"

definition separator :: char where
  "separator = CHR 0x00"

definition CreateCompositeKey :: "string \<Rightarrow> string list \<Rightarrow> error + string" where
  "CreateCompositeKey objectType attributes =
     (if list_all validateCompositeKeyAttribute (objectType # attributes)
      then Inr (separator # objectType @ [separator]
                @ concat (map (\<lambda>a. a @ [separator]) attributes))
      else Inl InvalidKey)"

definition begin_tx :: "string \<Rightarrow> string \<Rightarrow> store \<Rightarrow> ctx" where
  "begin_tx caller msp s =
     \<lparr>clientID = caller, clientMSPID = msp, world = s, writes = Map.empty, txEvent = None\<rparr>"

definition commit :: "ctx \<Rightarrow> store" where
  "commit c = world c ++ writes c"

subsection \<open>The contract\<close>

text \<open>
  A contract method mutates the context and returns an error or \<^verbatim>\<open>nil\<close>: here it takes
  the context and returns the error, if any, with the context as the method left it
  (after a refused \<^verbatim>\<open>PutState\<close> that may hold earlier writes; they are never committed).
\<close>

type_synonym result = "error option \<times> ctx"

definition BalanceOf :: "ctx \<Rightarrow> string \<Rightarrow> error + goint" where
  "BalanceOf c account =
     (case GetState c account of
        None \<Rightarrow> Inl (AccountNotFound account)
      | Some ownerBalance \<Rightarrow> Inr (Atoi ownerBalance))"

definition transferCalc :: "ctx \<Rightarrow> string \<Rightarrow> string \<Rightarrow> goint \<Rightarrow> result" where
  "transferCalc c from receiver amount =
     (if from = receiver then (Some SameAddress, c)
      else if amount <s 0 then (Some NegativeAmount, c)
      else case GetState c from of
        None \<Rightarrow> (Some (AccountNotFound from), c)
      | Some fromCurrentBalanceBytes \<Rightarrow>
          (let fromCurrentBalance = Atoi fromCurrentBalanceBytes in
           if fromCurrentBalance <s amount then (Some (InsufficientFunds from), c)
           else
             (let toCurrentBalance =
                    (case GetState c receiver of None \<Rightarrow> 0 | Some b \<Rightarrow> Atoi b);
                  fromUpdatedBalance = fromCurrentBalance - amount;
                  toUpdatedBalance = toCurrentBalance + amount
              in case PutState c from (Itoa fromUpdatedBalance) of
                   (Some err, c1) \<Rightarrow> (Some err, c1)
                 | (None, c1) \<Rightarrow>
                     (case PutState c1 receiver (Itoa toUpdatedBalance) of
                        (Some err, c2) \<Rightarrow> (Some err, c2)
                      | (None, c2) \<Rightarrow> (None, c2)))))"

definition Transfer :: "ctx \<Rightarrow> string \<Rightarrow> goint \<Rightarrow> result" where
  "Transfer c receiver amount =
     (case transferCalc c (clientID c) receiver amount of
        (Some err, c1) \<Rightarrow> (Some err, c1)
      | (None, c1) \<Rightarrow>
          (None, SetEvent c1 ''Transfer''
                   \<lparr>From = clientID c, To = receiver, Value = amount\<rparr>))"

definition TransferFrom :: "ctx \<Rightarrow> string \<Rightarrow> string \<Rightarrow> goint \<Rightarrow> result" where
  "TransferFrom c from receiver amount =
     (if amount \<le>s 0 then (Some AmountNotPositive, c)
      else
        (let spender = clientID c in
         case CreateCompositeKey allowancePrefix [from, spender] of
           Inl err \<Rightarrow> (Some err, c)
         | Inr allowanceKey \<Rightarrow>
             (let currentAllowance =
                    Atoi (case GetState c allowanceKey of None \<Rightarrow> [] | Some b \<Rightarrow> b) in
              if currentAllowance \<le>s amount then (Some InsufficientAllowance, c)
              else case transferCalc c from receiver amount of
                (Some err, c1) \<Rightarrow> (Some err, c1)
              | (None, c1) \<Rightarrow>
                  (let updatedAllowance = currentAllowance - amount in
                   case PutState c1 allowanceKey (Itoa updatedAllowance) of
                     (Some err, c2) \<Rightarrow> (Some err, c2)
                   | (None, c2) \<Rightarrow>
                       (None, SetEvent c2 ''Transfer''
                                \<lparr>From = from, To = receiver, Value = amount\<rparr>)))))"

definition Approve :: "ctx \<Rightarrow> string \<Rightarrow> goint \<Rightarrow> result" where
  "Approve c spender amount =
     (let owner = clientID c in
      case CreateCompositeKey allowancePrefix [owner, spender] of
        Inl err \<Rightarrow> (Some err, c)
      | Inr allowanceKey \<Rightarrow>
          (case PutState c allowanceKey (Itoa amount) of
             (Some err, c1) \<Rightarrow> (Some err, c1)
           | (None, c1) \<Rightarrow>
               (None, SetEvent c1 ''Approval''
                        \<lparr>From = owner, To = spender, Value = amount\<rparr>)))"

definition Allowance :: "ctx \<Rightarrow> string \<Rightarrow> string \<Rightarrow> error + goint" where
  "Allowance c owner spender =
     (case CreateCompositeKey allowancePrefix [owner, spender] of
        Inl err \<Rightarrow> Inl err
      | Inr allowanceKey \<Rightarrow>
          Inr (case GetState c allowanceKey of None \<Rightarrow> 0 | Some b \<Rightarrow> Atoi b))"

definition Mint :: "ctx \<Rightarrow> goint \<Rightarrow> result" where
  "Mint c amount =
     (let verifyClientID = clientMSPID c in
      if verifyClientID \<noteq> ''Org1MSP'' then (Some (Unauthorized verifyClientID), c)
      else
        (let minter = clientID c in
         if amount \<le>s 0 then (Some AmountNotPositive, c)
         else
           (let currentBalance =
                  (case GetState c minter of None \<Rightarrow> 0 | Some b \<Rightarrow> Atoi b);
                updatedBalance = currentBalance + amount
            in case PutState c minter (Itoa updatedBalance) of
                 (Some err, c1) \<Rightarrow> (Some err, c1)
               | (None, c1) \<Rightarrow>
                   (let totalSupply =
                          (case GetState c1 totalSupplyKey of None \<Rightarrow> 0 | Some b \<Rightarrow> Atoi b)
                          + amount
                    in case PutState c1 totalSupplyKey (Itoa totalSupply) of
                         (Some err, c2) \<Rightarrow> (Some err, c2)
                       | (None, c2) \<Rightarrow>
                           (None, SetEvent c2 ''Transfer''
                                    \<lparr>From = ''0x0'', To = minter, Value = amount\<rparr>)))))"

definition Burn :: "ctx \<Rightarrow> goint \<Rightarrow> result" where
  "Burn c amount =
     (let verifyClientID = clientMSPID c in
      if verifyClientID \<noteq> ''Org1MSP'' then (Some (Unauthorized verifyClientID), c)
      else
        (let burner = clientID c in
         if amount \<le>s 0 then (Some AmountNotPositive, c)
         else
           (let currentBalance =
                  (case GetState c burner of None \<Rightarrow> 0 | Some b \<Rightarrow> Atoi b);
                updatedBalance = currentBalance - amount
            in case PutState c burner (Itoa updatedBalance) of
                 (Some err, c1) \<Rightarrow> (Some err, c1)
               | (None, c1) \<Rightarrow>
                   (let totalSupply =
                          (case GetState c1 totalSupplyKey of None \<Rightarrow> 0 | Some b \<Rightarrow> Atoi b)
                          - amount
                    in case PutState c1 totalSupplyKey (Itoa totalSupply) of
                         (Some err, c2) \<Rightarrow> (Some err, c2)
                       | (None, c2) \<Rightarrow>
                           (None, SetEvent c2 ''Transfer''
                                    \<lparr>From = ''0x0'', To = burner, Value = amount\<rparr>)))))"

definition ClientAccountID :: "ctx \<Rightarrow> error + string" where
  "ClientAccountID c = Inr (clientID c)"

subsection \<open>The ledger\<close>

text \<open>
  One invocation is one transaction: a fresh context over the committed world state, one
  contract method, and the commit of its writes when the method returned no error.
\<close>

datatype call =
    MintCall goint
  | BurnCall goint
  | TransferCall string goint
  | TransferFromCall string string goint
  | ApproveCall string goint

record invocation =
  invoker :: string
  invokerMSP :: string
  request :: call

definition invoke :: "store \<Rightarrow> invocation \<Rightarrow> result" where
  "invoke s i =
     (let c = begin_tx (invoker i) (invokerMSP i) s in
      case request i of
        MintCall amount \<Rightarrow> Mint c amount
      | BurnCall amount \<Rightarrow> Burn c amount
      | TransferCall receiver amount \<Rightarrow> Transfer c receiver amount
      | TransferFromCall from receiver amount \<Rightarrow> TransferFrom c from receiver amount
      | ApproveCall spender amount \<Rightarrow> Approve c spender amount)"

definition submit :: "store \<Rightarrow> invocation \<Rightarrow> error + store" where
  "submit s i = (case invoke s i of (Some err, c) \<Rightarrow> Inl err | (None, c) \<Rightarrow> Inr (commit c))"

definition ledger_after :: "store \<Rightarrow> invocation \<Rightarrow> store" where
  "ledger_after s i = (case submit s i of Inl err \<Rightarrow> s | Inr s' \<Rightarrow> s')"

fun run :: "store \<Rightarrow> invocation list \<Rightarrow> error + store" where
  "run s [] = Inr s"
| "run s (i # is) = (case submit s i of Inl err \<Rightarrow> Inl err | Inr s' \<Rightarrow> run s' is)"

text \<open>
  The persisted layout: the total supply under \<open>totalSupplyKey\<close>, an allowance under a
  composite key (which starts with the separator), a balance under the raw account
  identifier. A balance is read as the contract reads the balance of an account it
  credits: no record counts as 0.
\<close>

definition is_account_key :: "string \<Rightarrow> bool" where
  "is_account_key k = (k \<noteq> totalSupplyKey \<and> (case k of [] \<Rightarrow> True | x # xs \<Rightarrow> x \<noteq> separator))"

definition balance :: "store \<Rightarrow> string \<Rightarrow> goint" where
  "balance s k = (case s k of None \<Rightarrow> 0 | Some b \<Rightarrow> Atoi b)"

definition TotalSupply :: "store \<Rightarrow> goint" where
  "TotalSupply s = balance s totalSupplyKey"

definition account_keys :: "store \<Rightarrow> string set" where
  "account_keys s = {k \<in> dom s. is_account_key k}"

definition sum_balances :: "store \<Rightarrow> goint" where
  "sum_balances s = (\<Sum>k\<in>account_keys s. balance s k)"

subsection \<open>Predicates on ledgers and invocations\<close>

text \<open>
  The account identifiers whose balance an invocation reads or writes. The source expects
  them to be client identifiers (``Recipient account must be a valid clientID as returned
  by the GetClientID() function''), but does not check it.
\<close>

definition accounts_of :: "invocation \<Rightarrow> string list" where
  "accounts_of i =
     (case request i of
        MintCall amount \<Rightarrow> [invoker i]
      | BurnCall amount \<Rightarrow> [invoker i]
      | TransferCall receiver amount \<Rightarrow> [invoker i, receiver]
      | TransferFromCall from receiver amount \<Rightarrow> [from, receiver]
      | ApproveCall spender amount \<Rightarrow> [])"

definition well_addressed :: "invocation \<Rightarrow> bool" where
  "well_addressed i = list_all is_account_key (accounts_of i)"

text \<open>Conservation: the balances add up, in Go's \<^verbatim>\<open>int\<close> arithmetic, to the total supply.\<close>

definition conserved :: "store \<Rightarrow> bool" where
  "conserved s = (finite (dom s) \<and> sum_balances s = TotalSupply s)"

definition nonneg_balances :: "store \<Rightarrow> bool" where
  "nonneg_balances s = (\<forall>k. is_account_key k \<longrightarrow> 0 \<le>s balance s k)"

definition burns :: "invocation \<Rightarrow> bool" where
  "burns i = (case request i of BurnCall amount \<Rightarrow> True | _ \<Rightarrow> False)"

definition credit_fits :: "store \<Rightarrow> invocation \<Rightarrow> bool" where
  "credit_fits s i =
     (case request i of
        MintCall amount \<Rightarrow> sint (balance s (invoker i)) + sint amount < 2 ^ 63
      | TransferCall receiver amount \<Rightarrow> sint (balance s receiver) + sint amount < 2 ^ 63
      | TransferFromCall from receiver amount \<Rightarrow> sint (balance s receiver) + sint amount < 2 ^ 63
      | _ \<Rightarrow> True)"

subsection \<open>Example ledgers\<close>

text \<open>
  \<open>scenario_store\<close>: \<open>alice\<close> holds 100 and has approved \<open>bob\<close> for 50.
  \<open>opening_ledger\<close>: \<open>alice\<close> has minted 100. \<open>full_ledger\<close>: \<open>alice\<close> has minted the
  largest \<^verbatim>\<open>int\<close>, \<open>2\<^sup>6\<^sup>3 - 1\<close>. \<open>brim_ledger\<close>: \<open>alice\<close> has minted 1 and \<open>bob\<close> the
  largest \<^verbatim>\<open>int\<close>. \<open>overdrawn_ledger\<close>: \<open>alice\<close> has burnt 2 on the empty ledger.
\<close>

definition alice_bob_key :: string where
  "alice_bob_key = separator # ''allowance'' @ [separator] @ ''alice'' @ [separator] @ ''bob'' @ [separator]"

definition scenario_store :: store where
  "scenario_store = [''alice'' \<mapsto> ''100'', alice_bob_key \<mapsto> ''50'']"

definition full_ledger :: store where
  "full_ledger = [''alice'' \<mapsto> ''9223372036854775807'', ''totalSupply'' \<mapsto> ''9223372036854775807'']"

definition brim_ledger :: store where
  "brim_ledger = [''alice'' \<mapsto> ''1'', ''bob'' \<mapsto> ''9223372036854775807'',
                  ''totalSupply'' \<mapsto> ''-9223372036854775808'']"

definition opening_ledger :: store where
  "opening_ledger = [''alice'' \<mapsto> ''100'', ''totalSupply'' \<mapsto> ''100'']"

definition scenario_ops :: "invocation list" where
  "scenario_ops =
     [\<lparr>invoker = ''alice'', invokerMSP = ''Org1MSP'', request = MintCall 100\<rparr>,
      \<lparr>invoker = ''alice'', invokerMSP = ''Org1MSP'', request = TransferCall ''bob'' 40\<rparr>,
      \<lparr>invoker = ''alice'', invokerMSP = ''Org1MSP'', request = ApproveCall ''bob'' 50\<rparr>,
      \<lparr>invoker = ''bob'', invokerMSP = ''Org2MSP'', request = TransferFromCall ''alice'' ''carol'' 10\<rparr>,
      \<lparr>invoker = ''alice'', invokerMSP = ''Org1MSP'', request = BurnCall 5\<rparr>]"

definition aliasing_ops :: "invocation list" where
  "aliasing_ops =
     [\<lparr>invoker = ''alice'', invokerMSP = ''Org1MSP'', request = MintCall 10\<rparr>,
      \<lparr>invoker = ''alice'', invokerMSP = ''Org1MSP'', request = TransferCall ''totalSupply'' 5\<rparr>]"

definition overdrawn_ledger :: store where
  "overdrawn_ledger = ledger_after Map.empty \<lparr>invoker = ''alice'', invokerMSP = ''Org1MSP'', request = BurnCall 2\<rparr>"

section \<open>Properties\<close>

subsection \<open>Reading back what was written\<close>

text \<open>
  Every value the contract stores is written by \<open>Itoa\<close> and read by \<open>Atoi\<close>; reading
  gives back the integer that was written.
\<close>

lemma ParseUint_loop_append:
  "ParseUint_loop n (xs @ ys) =
     (case ParseUint_loop n xs of Parsed m \<Rightarrow> ParseUint_loop m ys | e \<Rightarrow> e)"
  by (induction xs arbitrary: n) auto

lemma formatBits_nonempty: "formatBits u \<noteq> []"
  by (subst formatBits.simps) simp

lemma ParseUint_loop_digit:
  assumes "d < 10" "n * 10 + d \<le> maxUint64"
  shows "ParseUint_loop n [char_of (48 + d)] = Parsed (n * 10 + d)"
proof -
  have c: "(of_char (char_of (48 + d) :: char) :: nat) = 48 + d"
    using assms(1) by simp
  have "n < maxUint64 div 10 + 1"
    using assms(2) by (simp add: maxUint64_def)
  then show ?thesis
    using assms c by simp
qed

lemma ParseUint_loop_formatBits:
  "u \<le> maxUint64 \<Longrightarrow> ParseUint_loop 0 (formatBits u) = Parsed u"
proof (induction u rule: formatBits.induct)
  case (1 u)
  show ?case
  proof (cases "u < 10")
    case True
    then show ?thesis
      using ParseUint_loop_digit [of u 0] "1.prems"
      by (subst formatBits.simps) simp
  next
    case False
    have le: "u div 10 \<le> maxUint64"
      using "1.prems" by simp
    have ih: "ParseUint_loop 0 (formatBits (u div 10)) = Parsed (u div 10)"
      using "1.IH" [OF False le] .
    have "ParseUint_loop (u div 10) [char_of (48 + u mod 10)] = Parsed (u div 10 * 10 + u mod 10)"
      by (rule ParseUint_loop_digit) (use "1.prems" in simp_all)
    then show ?thesis
      using False ih
      by (subst formatBits.simps) (simp add: ParseUint_loop_append)
  qed
qed

lemma ParseUint_formatBits:
  "u \<le> maxUint64 \<Longrightarrow> ParseUint (formatBits u) = Parsed u"
  by (simp add: ParseUint_def formatBits_nonempty ParseUint_loop_formatBits)

lemma formatBits_hd_digit:
  "\<exists>c cs. formatBits u = c # cs \<and> 48 \<le> (of_char c :: nat) \<and> (of_char c :: nat) \<le> 57"
proof (induction u rule: formatBits.induct)
  case (1 u)
  show ?case
  proof (cases "u < 10")
    case True
    then show ?thesis by (subst formatBits.simps) simp
  next
    case False
    from "1.IH" [OF False] obtain c cs where
      "formatBits (u div 10) = c # cs" "48 \<le> (of_char c :: nat)" "(of_char c :: nat) \<le> 57"
      by blast
    then show ?thesis
      using False by (subst formatBits.simps) simp
  qed
qed

lemma ParseInt_formatBits:
  "u \<le> maxUint64 \<Longrightarrow> ParseInt (formatBits u) = ParseInt_signed False (formatBits u)"
proof -
  obtain c cs where f: "formatBits u = c # cs" and d: "48 \<le> (of_char c :: nat)"
    using formatBits_hd_digit by blast
  have "c \<noteq> CHR ''+''" "c \<noteq> CHR ''-''"
    using d by auto
  then show ?thesis
    by (simp add: ParseInt_def f)
qed

lemma Atoi_Itoa [simp]: "Atoi (Itoa i) = i"
proof (cases "i <s 0")
  case True
  then have neg: "sint i < 0"
    by (simp add: word_sless_alt)
  have ge: "- (2 ^ 63) \<le> sint i"
    using sint_ge [of i] by simp
  let ?u = "nat (- sint i)"
  have u: "?u \<le> 2 ^ 63"
    using ge neg by (simp add: nat_le_iff)
  then have "?u \<le> maxUint64"
    by (simp add: maxUint64_def)
  then have "ParseUint (formatBits ?u) = Parsed ?u"
    by (rule ParseUint_formatBits)
  then have "ParseInt (Itoa i) = - int ?u"
    using True u by (simp add: Itoa_def ParseInt_def ParseInt_signed_def)
  also have "\<dots> = sint i"
    using neg by simp
  finally show ?thesis
    by (simp add: Atoi_def)
next
  case False
  then have nonneg: "0 \<le> sint i"
    by (simp add: word_sless_alt)
  have lt: "sint i < 2 ^ 63"
    using sint_lt [of i] by simp
  let ?u = "nat (sint i)"
  have u: "?u < 2 ^ 63"
    using lt nonneg by (simp add: nat_less_iff)
  then have m: "?u \<le> maxUint64"
    by (simp add: maxUint64_def)
  then have "ParseUint (formatBits ?u) = Parsed ?u"
    by (rule ParseUint_formatBits)
  then have "ParseInt (Itoa i) = int ?u"
    using False u ParseInt_formatBits [OF m]
    by (simp add: Itoa_def ParseInt_signed_def)
  also have "\<dots> = sint i"
    using nonneg by simp
  finally show ?thesis
    by (simp add: Atoi_def)
qed

lemma Atoi_Nil [simp]: "Atoi [] = 0"
  by (simp add: Atoi_def ParseInt_def)

subsection \<open>Unfolding and evaluation\<close>

lemmas stub_defs = GetState_def PutState_def SetEvent_def commit_def begin_tx_def

lemmas eval_defs = submit_def invoke_def Mint_def Burn_def Transfer_def TransferFrom_def
  Approve_def transferCalc_def CreateCompositeKey_def Let_def stub_defs
  validateCompositeKeyAttribute_def continuation_def minUnicodeRuneValue_def
  maxUnicodeRuneValue_def
  allowancePrefix_def totalSupplyKey_def separator_def word_sle_eq word_sless_alt

lemmas Atoi_eval = Atoi_def ParseInt_def ParseInt_signed_def ParseUint_def maxUint64_def

lemma Atoi_examples:
  "Atoi ''100'' = 100" "Atoi ''50'' = 50" "Atoi ''3'' = 3" "Atoi ''1'' = 1"
  "Atoi ''0'' = 0" "Atoi ''5'' = 5" "Atoi ''15'' = 15" "Atoi ''-2'' = - 2" "Atoi ''-5'' = - 5"
  "Atoi ''9223372036854775807'' = 9223372036854775807"
  "Atoi ''-9223372036854775808'' = - 9223372036854775808"
  by (simp_all add: Atoi_eval)

lemma Itoa_examples:
  "Itoa 0 = ''0''" "Itoa 1 = ''1''" "Itoa 5 = ''5''" "Itoa 15 = ''15''" "Itoa 100 = ''100''"
  "Itoa (- 2) = ''-2''" "Itoa (- 5) = ''-5''"
  "Itoa 9223372036854775807 = ''9223372036854775807''"
  "Itoa 9223372036854775808 = ''-9223372036854775808''"
  by (simp_all add: Itoa_def formatBits.simps word_sless_alt char_of_def bit_0)

subsection \<open>What a committed invocation writes\<close>

lemma PutState_ok:
  "key \<noteq> [] \<Longrightarrow> PutState c key v = (None, c\<lparr>writes := (writes c)(key \<mapsto> v)\<rparr>)"
  by (simp add: PutState_def)

lemma PutState_success:
  "PutState c key v = (None, c') \<Longrightarrow> key \<noteq> [] \<and> c' = c\<lparr>writes := (writes c)(key \<mapsto> v)\<rparr>"
  by (auto simp: PutState_def split: if_splits)

lemma composite_key_shape:
  "CreateCompositeKey p as = Inr k \<Longrightarrow> \<exists>r. k = separator # r"
  by (auto simp: CreateCompositeKey_def split: if_splits)

lemma composite_nonempty:
  "CreateCompositeKey p as = Inr k \<Longrightarrow> k \<noteq> []"
  by (auto dest: composite_key_shape)

lemma composite_not_account:
  "CreateCompositeKey p as = Inr k \<Longrightarrow> \<not> is_account_key k"
  by (auto simp: is_account_key_def dest: composite_key_shape)

lemma totalSupplyKey_not_account [simp]: "\<not> is_account_key totalSupplyKey"
  by (simp add: is_account_key_def)

lemma totalSupplyKey_nonempty [simp]: "totalSupplyKey \<noteq> []"
  by (simp add: totalSupplyKey_def)

lemma composite_not_totalSupplyKey:
  "CreateCompositeKey p as = Inr k \<Longrightarrow> k \<noteq> totalSupplyKey"
  by (auto simp: totalSupplyKey_def separator_def dest: composite_key_shape)

text \<open>
  What \<open>validateCompositeKeyAttribute\<close> accepts and refuses: plain and multi-byte text is
  accepted; U+0000, U+10FFFF (\<open>F4 8F BF BF\<close>), a byte that starts no sequence, an overlong
  form, a surrogate, a value above U+10FFFF and a truncated sequence are refused.
\<close>

lemma validate_examples:
  "validateCompositeKeyAttribute []"
  "validateCompositeKeyAttribute [CHR 0xC3, CHR 0xA9]"
  "validateCompositeKeyAttribute [CHR 0xE2, CHR 0x82, CHR 0xAC]"
  "validateCompositeKeyAttribute [CHR 0xF0, CHR 0x9F, CHR 0x98, CHR 0x80]"
  "validateCompositeKeyAttribute [CHR 0xF4, CHR 0x8F, CHR 0xBF, CHR 0xBE]"
  "\<not> validateCompositeKeyAttribute [CHR 0x61, CHR 0x00, CHR 0x62]"
  "\<not> validateCompositeKeyAttribute [CHR 0xF4, CHR 0x8F, CHR 0xBF, CHR 0xBF]"
  "\<not> validateCompositeKeyAttribute [CHR 0xFF]"
  "\<not> validateCompositeKeyAttribute [CHR 0x80]"
  "\<not> validateCompositeKeyAttribute [CHR 0xC0, CHR 0x80]"
  "\<not> validateCompositeKeyAttribute [CHR 0xE0, CHR 0x80, CHR 0x80]"
  "\<not> validateCompositeKeyAttribute [CHR 0xED, CHR 0xA0, CHR 0x80]"
  "\<not> validateCompositeKeyAttribute [CHR 0xF4, CHR 0x90, CHR 0x80, CHR 0x80]"
  "\<not> validateCompositeKeyAttribute [CHR 0xE2, CHR 0x82]"
  by (simp_all add: validateCompositeKeyAttribute_def continuation_def
        minUnicodeRuneValue_def maxUnicodeRuneValue_def)

lemma Approve_invalid_spender:
  "fst (Approve (begin_tx ''alice'' ''Org1MSP'' s) [CHR 0xFF] n) = Some InvalidKey"
  "fst (Approve (begin_tx ''alice'' ''Org1MSP'' s) [CHR 0xF4, CHR 0x8F, CHR 0xBF, CHR 0xBF] n)
     = Some InvalidKey"
  by (simp_all add: Approve_def CreateCompositeKey_def Let_def begin_tx_def validate_examples)

lemma valid_names:
  "validateCompositeKeyAttribute ''alice''" "validateCompositeKeyAttribute ''bob''"
  "validateCompositeKeyAttribute ''carol''" "validateCompositeKeyAttribute ''allowance''"
  by (simp_all add: validateCompositeKeyAttribute_def continuation_def
        minUnicodeRuneValue_def maxUnicodeRuneValue_def)

lemma allowancePrefix_valid: "validateCompositeKeyAttribute allowancePrefix"
  by (simp add: validateCompositeKeyAttribute_def allowancePrefix_def continuation_def
        minUnicodeRuneValue_def maxUnicodeRuneValue_def)

lemma transferCalc_success:
  assumes "transferCalc c from receiver amount = (None, c')"
  shows "from \<noteq> receiver \<and> \<not> amount <s 0 \<and> world c from \<noteq> None
       \<and> \<not> balance (world c) from <s amount \<and> from \<noteq> [] \<and> receiver \<noteq> []
       \<and> c' = c\<lparr>writes := (writes c)(from \<mapsto> Itoa (balance (world c) from - amount),
                                     receiver \<mapsto> Itoa (balance (world c) receiver + amount))\<rparr>"
  using assms
  by (auto simp: transferCalc_def Let_def GetState_def PutState_def balance_def
           split: if_splits option.splits)

lemma transferCalc_ok:
  assumes "from \<noteq> receiver" "\<not> amount <s 0" "world c from \<noteq> None"
    and "\<not> balance (world c) from <s amount" "from \<noteq> []" "receiver \<noteq> []"
  shows "transferCalc c from receiver amount =
           (None, c\<lparr>writes := (writes c)(from \<mapsto> Itoa (balance (world c) from - amount),
                                         receiver \<mapsto> Itoa (balance (world c) receiver + amount))\<rparr>)"
  using assms
  by (auto simp: transferCalc_def Let_def GetState_def PutState_def balance_def)

lemma submit_Mint:
  assumes "submit s i = Inr s'" "request i = MintCall amount"
  shows "\<not> amount \<le>s 0 \<and> s' = s(invoker i \<mapsto> Itoa (balance s (invoker i) + amount),
                totalSupplyKey \<mapsto> Itoa (TotalSupply s + amount))"
  using assms
  by (auto simp: submit_def invoke_def Mint_def Let_def stub_defs balance_def TotalSupply_def
           split: if_splits)

lemma submit_Burn:
  assumes "submit s i = Inr s'" "request i = BurnCall amount"
  shows "s' = s(invoker i \<mapsto> Itoa (balance s (invoker i) - amount),
                totalSupplyKey \<mapsto> Itoa (TotalSupply s - amount))"
  using assms
  by (auto simp: submit_def invoke_def Burn_def Let_def stub_defs balance_def TotalSupply_def
           split: if_splits)

lemma submit_Transfer:
  assumes "submit s i = Inr s'" "request i = TransferCall receiver amount"
  shows "invoker i \<noteq> receiver \<and> \<not> amount <s 0 \<and> \<not> balance s (invoker i) <s amount
       \<and> s' = s(invoker i \<mapsto> Itoa (balance s (invoker i) - amount),
                  receiver \<mapsto> Itoa (balance s receiver + amount))"
proof -
  let ?c = "begin_tx (invoker i) (invokerMSP i) s"
  from assms obtain c1 where "transferCalc ?c (invoker i) receiver amount = (None, c1)"
    and s': "s' = commit (SetEvent c1 ''Transfer'' \<lparr>From = invoker i, To = receiver, Value = amount\<rparr>)"
    by (auto simp: submit_def invoke_def Transfer_def Let_def begin_tx_def split: prod.splits option.splits)
  from transferCalc_success [OF this(1)] s' show ?thesis
    by (simp add: GetState_def SetEvent_def commit_def begin_tx_def)
qed

lemma submit_Transfer_keys:
  assumes "submit s i = Inr s'" "request i = TransferCall receiver amount"
  shows "invoker i \<noteq> [] \<and> receiver \<noteq> []"
proof -
  let ?c = "begin_tx (invoker i) (invokerMSP i) s"
  from assms obtain c1 where "transferCalc ?c (invoker i) receiver amount = (None, c1)"
    by (auto simp: submit_def invoke_def Transfer_def Let_def begin_tx_def split: prod.splits option.splits)
  from transferCalc_success [OF this] show ?thesis
    by simp
qed

lemma submit_TransferFrom:
  assumes "submit s i = Inr s'" "request i = TransferFromCall from receiver amount"
  shows "\<exists>k v. CreateCompositeKey allowancePrefix [from, invoker i] = Inr k
       \<and> from \<noteq> receiver \<and> \<not> amount <s 0 \<and> \<not> balance s from <s amount
       \<and> s' = s(from \<mapsto> Itoa (balance s from - amount),
                  receiver \<mapsto> Itoa (balance s receiver + amount),
                  k \<mapsto> v)"
proof -
  let ?c = "begin_tx (invoker i) (invokerMSP i) s"
  from assms obtain k c1 c2 v where k: "CreateCompositeKey allowancePrefix [from, invoker i] = Inr k"
    and tc: "transferCalc ?c from receiver amount = (None, c1)"
    and ps: "PutState c1 k v = (None, c2)"
    and s': "s' = commit (SetEvent c2 ''Transfer'' \<lparr>From = from, To = receiver, Value = amount\<rparr>)"
    by (auto simp: submit_def invoke_def TransferFrom_def Let_def begin_tx_def
             split: prod.splits option.splits if_splits sum.splits)
  from transferCalc_success [OF tc] PutState_success [OF ps] s' k show ?thesis
    by (auto simp: GetState_def SetEvent_def commit_def begin_tx_def)
qed

lemma submit_Approve:
  assumes "submit s i = Inr s'" "request i = ApproveCall spender amount"
  shows "\<exists>k. CreateCompositeKey allowancePrefix [invoker i, spender] = Inr k
       \<and> s' = s(k \<mapsto> Itoa amount)"
  using assms
  by (auto simp: submit_def invoke_def Approve_def Let_def stub_defs
           split: sum.splits if_splits)

lemma submit_Transfer_ok:
  assumes "request i = TransferCall receiver amount" "invoker i \<noteq> receiver" "\<not> amount <s 0"
    and "s (invoker i) \<noteq> None" "\<not> balance s (invoker i) <s amount"
    and "invoker i \<noteq> []" "receiver \<noteq> []"
  shows "submit s i = Inr (s(invoker i \<mapsto> Itoa (balance s (invoker i) - amount),
                            receiver \<mapsto> Itoa (balance s receiver + amount)))"
  using assms
  by (auto simp: submit_def invoke_def Transfer_def transferCalc_def Let_def stub_defs balance_def)

lemma TransferFrom_ok:
  assumes "CreateCompositeKey allowancePrefix [owner, clientID c] = Inr k"
    and "\<not> amount \<le>s 0"
    and "\<not> Atoi (case world c k of None \<Rightarrow> [] | Some b \<Rightarrow> b) \<le>s amount"
    and "transferCalc c owner receiver amount = (None, c1)"
  shows "TransferFrom c owner receiver amount =
           (None, c1\<lparr>writes := (writes c1)(k \<mapsto>
                         Itoa (Atoi (case world c k of None \<Rightarrow> [] | Some b \<Rightarrow> b) - amount)),
                     txEvent := Some (''Transfer'',
                         \<lparr>From = owner, To = receiver, Value = amount\<rparr>)\<rparr>)"
  using assms composite_nonempty [OF assms(1)]
  by (simp add: TransferFrom_def Let_def GetState_def PutState_def SetEvent_def)

lemma Allowance_key:
  "CreateCompositeKey allowancePrefix [owner, spender] = Inr k \<Longrightarrow>
   Allowance c owner spender = Inr (Atoi (case world c k of None \<Rightarrow> [] | Some b \<Rightarrow> b))"
  by (simp add: Allowance_def GetState_def split: option.splits)

lemma balance_upd: "balance (s(k \<mapsto> v)) x = (if x = k then Atoi v else balance s x)"
  by (simp add: balance_def)

lemma TotalSupply_upd:
  "TotalSupply (s(k \<mapsto> v)) = (if k = totalSupplyKey then Atoi v else TotalSupply s)"
  by (simp add: TotalSupply_def balance_upd)

subsection \<open>The sum of the balances under one write\<close>

lemma account_keys_upd:
  "account_keys (s(k \<mapsto> v)) = (if is_account_key k then insert k (account_keys s) else account_keys s)"
  by (auto simp: account_keys_def)

lemma finite_account_keys: "finite (dom s) \<Longrightarrow> finite (account_keys s)"
  by (simp add: account_keys_def)

lemma sum_balances_upd_other:
  assumes "\<not> is_account_key k"
  shows "sum_balances (s(k \<mapsto> v)) = sum_balances s"
proof -
  have "k \<notin> account_keys s"
    using assms by (simp add: account_keys_def)
  then have "(\<Sum>x\<in>account_keys s. balance (s(k \<mapsto> v)) x) = (\<Sum>x\<in>account_keys s. balance s x)"
    by (intro sum.cong) (auto simp: balance_upd)
  then show ?thesis
    using assms by (simp add: sum_balances_def account_keys_upd)
qed

lemma sum_balances_upd_account:
  assumes "finite (dom s)" "is_account_key k"
  shows "sum_balances (s(k \<mapsto> v)) = sum_balances s - balance s k + Atoi v"
proof -
  let ?A = "account_keys s"
  have fin: "finite ?A"
    using assms(1) by (rule finite_account_keys)
  have rest: "(\<Sum>x\<in>?A - {k}. balance (s(k \<mapsto> v)) x) = (\<Sum>x\<in>?A - {k}. balance s x)"
    by (intro sum.cong) (auto simp: balance_upd)
  have new: "sum_balances (s(k \<mapsto> v)) = Atoi v + (\<Sum>x\<in>?A - {k}. balance s x)"
    using assms(2) fin rest
    by (simp add: sum_balances_def account_keys_upd sum.insert_remove balance_upd)
  have old: "sum_balances s = balance s k + (\<Sum>x\<in>?A - {k}. balance s x)"
  proof (cases "k \<in> ?A")
    case True
    then show ?thesis
      using fin by (simp add: sum_balances_def sum.remove)
  next
    case False
    then have "s k = None"
      using assms(2) by (auto simp: account_keys_def)
    then have "balance s k = 0"
      by (simp add: balance_def)
    then show ?thesis
      using False by (simp add: sum_balances_def)
  qed
  from new old show ?thesis
    by simp
qed

lemma sum_balances_empty: "sum_balances Map.empty = 0"
  by (simp add: sum_balances_def account_keys_def)

lemma conserved_submit:
  assumes "conserved s" "well_addressed i" "submit s i = Inr s'"
  shows "conserved s'"
proof (cases "request i")
  case (MintCall amount)
  have acc: "is_account_key (invoker i)"
    using assms(2) MintCall by (simp add: well_addressed_def accounts_of_def)
  from submit_Mint [OF assms(3) MintCall] assms(1) acc show ?thesis
    by (simp add: conserved_def sum_balances_upd_other sum_balances_upd_account TotalSupply_upd)
next
  case (BurnCall amount)
  have acc: "is_account_key (invoker i)"
    using assms(2) BurnCall by (simp add: well_addressed_def accounts_of_def)
  from submit_Burn [OF assms(3) BurnCall] assms(1) acc show ?thesis
    by (simp add: conserved_def sum_balances_upd_other sum_balances_upd_account TotalSupply_upd)
next
  case (TransferCall receiver amount)
  have acc: "is_account_key (invoker i)" "is_account_key receiver"
    using assms(2) TransferCall by (simp_all add: well_addressed_def accounts_of_def)
  then have ne: "invoker i \<noteq> totalSupplyKey" "receiver \<noteq> totalSupplyKey"
    by (auto simp: is_account_key_def)
  from submit_Transfer [OF assms(3) TransferCall] have d: "receiver \<noteq> invoker i"
    and s': "s' = s(invoker i \<mapsto> Itoa (balance s (invoker i) - amount),
                  receiver \<mapsto> Itoa (balance s receiver + amount))"
    by auto
  from s' assms(1) acc ne d show ?thesis
    by (simp add: conserved_def sum_balances_upd_account TotalSupply_upd balance_upd)
next
  case (TransferFromCall owner receiver amount)
  have acc: "is_account_key owner" "is_account_key receiver"
    using assms(2) TransferFromCall by (simp_all add: well_addressed_def accounts_of_def)
  then have ne: "owner \<noteq> totalSupplyKey" "receiver \<noteq> totalSupplyKey"
    by (auto simp: is_account_key_def)
  from submit_TransferFrom [OF assms(3) TransferFromCall] obtain k v where
    k: "CreateCompositeKey allowancePrefix [owner, invoker i] = Inr k"
    and d: "receiver \<noteq> owner"
    and s': "s' = s(owner \<mapsto> Itoa (balance s owner - amount),
                  receiver \<mapsto> Itoa (balance s receiver + amount), k \<mapsto> v)"
    by auto
  from s' assms(1) acc ne d composite_not_account [OF k] composite_not_totalSupplyKey [OF k]
  show ?thesis
    by (simp add: conserved_def sum_balances_upd_account sum_balances_upd_other
          TotalSupply_upd balance_upd)
next
  case (ApproveCall spender amount)
  from submit_Approve [OF assms(3) ApproveCall] obtain k where
    k: "CreateCompositeKey allowancePrefix [invoker i, spender] = Inr k"
    and s': "s' = s(k \<mapsto> Itoa amount)"
    by blast
  from s' assms(1) composite_not_account [OF k] composite_not_totalSupplyKey [OF k]
  show ?thesis
    by (simp add: conserved_def sum_balances_upd_other TotalSupply_upd)
qed

lemma conserved_run:
  "conserved s \<Longrightarrow> list_all well_addressed ops \<Longrightarrow> run s ops = Inr s' \<Longrightarrow> conserved s'"
proof (induction ops arbitrary: s)
  case Nil
  then show ?case by simp
next
  case (Cons i ops)
  from Cons.prems(3) obtain s1 where s1: "submit s i = Inr s1" and r: "run s1 ops = Inr s'"
    by (auto split: sum.splits)
  from Cons.prems(1,2) s1 have "conserved s1"
    by (auto intro: conserved_submit)
  with Cons.IH [OF this _ r] Cons.prems(2) show ?case
    by simp
qed

lemma conserved_empty: "conserved Map.empty"
  by (simp add: conserved_def sum_balances_def account_keys_def TotalSupply_def balance_def)

subsection \<open>Signed arithmetic without overflow\<close>

lemma sint_add_exact:
  fixes a b :: goint
  assumes "- (2 ^ 63) \<le> sint a + sint b" "sint a + sint b < 2 ^ 63"
  shows "sint (a + b) = sint a + sint b"
  using assms by (simp add: sint_word_add signed_take_bit_int_eq_self)

lemma sint_diff_exact:
  fixes a b :: goint
  assumes "- (2 ^ 63) \<le> sint a - sint b" "sint a - sint b < 2 ^ 63"
  shows "sint (a - b) = sint a - sint b"
  using assms by (simp add: sint_word_diff signed_take_bit_int_eq_self)

lemma credit_nonneg:
  fixes b amount :: goint
  assumes "0 \<le>s b" "\<not> amount <s 0" "sint b + sint amount < 2 ^ 63"
  shows "0 \<le>s b + amount" "\<not> b + amount <s amount"
proof -
  have "0 \<le> sint b" "0 \<le> sint amount"
    using assms(1,2) by (simp_all add: word_sle_eq word_sless_alt)
  moreover from this assms(3) have "sint (b + amount) = sint b + sint amount"
    by (intro sint_add_exact) simp_all
  ultimately show "0 \<le>s b + amount" "\<not> b + amount <s amount"
    by (simp_all add: word_sle_eq word_sless_alt)
qed

lemma debit_nonneg:
  fixes b amount :: goint
  assumes "\<not> b <s amount" "\<not> amount <s 0"
  shows "0 \<le>s b - amount"
proof -
  have le: "sint amount \<le> sint b" "0 \<le> sint amount"
    using assms by (simp_all add: word_sle_eq word_sless_alt)
  have "sint b < 2 ^ 63"
    using sint_lt [of b] by simp
  with le have "sint (b - amount) = sint b - sint amount"
    by (intro sint_diff_exact) simp_all
  with le show ?thesis
    by (simp add: word_sle_eq)
qed

lemma nonneg_balancesD: "nonneg_balances s \<Longrightarrow> is_account_key k \<Longrightarrow> 0 \<le>s balance s k"
  by (simp add: nonneg_balances_def)

subsection \<open>The example ledgers\<close>

lemma scenario_runs: "\<exists>s. run Map.empty scenario_ops = Inr s"
  by (simp add: scenario_ops_def eval_defs)

lemma aliasing_run:
  "run Map.empty aliasing_ops = Inr [''alice'' \<mapsto> ''5'', ''totalSupply'' \<mapsto> ''15'']"
  by (simp add: aliasing_ops_def eval_defs Itoa_examples)

lemma opening_ledger_reached:
  "run Map.empty [\<lparr>invoker = ''alice'', invokerMSP = ''Org1MSP'', request = MintCall 100\<rparr>]
     = Inr opening_ledger"
  by (simp add: eval_defs opening_ledger_def Itoa_examples)

lemma full_ledger_reached:
  "run Map.empty
     [\<lparr>invoker = ''alice'', invokerMSP = ''Org1MSP'', request = MintCall 9223372036854775807\<rparr>]
     = Inr full_ledger"
  by (simp add: eval_defs full_ledger_def Itoa_examples)

lemma brim_ledger_reached:
  "run Map.empty
     [\<lparr>invoker = ''alice'', invokerMSP = ''Org1MSP'', request = MintCall 1\<rparr>,
      \<lparr>invoker = ''bob'', invokerMSP = ''Org1MSP'', request = MintCall 9223372036854775807\<rparr>]
     = Inr brim_ledger"
  by (simp add: eval_defs brim_ledger_def Itoa_examples Atoi_examples)

lemma nonneg_full_ledger: "nonneg_balances full_ledger"
  by (simp add: nonneg_balances_def full_ledger_def balance_def Atoi_examples word_sle_eq)

lemma overdrawn_ledger_eq:
  "overdrawn_ledger = [''alice'' \<mapsto> ''-2'', ''totalSupply'' \<mapsto> ''-2'']"
  by (simp add: overdrawn_ledger_def ledger_after_def eval_defs Itoa_examples)

section \<open>The claims\<close>

subsection \<open>C1: conservation of supply\<close>

text \<open>
  Claim C1. For every sequence of Mint, Burn, Transfer, TransferFrom (and Approve)
  invocations, each committed successfully, starting from the empty ledger, the sum of all
  account balances equals TotalSupply after each committed invocation, provided every
  account identifier the invocations debit or credit (the caller of Mint, Burn and
  Transfer, the owner of TransferFrom, every recipient) is an account key: not the key
  \<open>totalSupply\<close> and not a composite key. Balances, supply and their sum are Go \<^verbatim>\<open>int\<close>s.
  The statement is about every sequence, hence about every prefix of a sequence.
\<close>

theorem supply_conservation:
  assumes "list_all well_addressed ops" "run Map.empty ops = Inr s"
  shows "sum_balances s = TotalSupply s"
  using conserved_run [OF conserved_empty assms] by (simp add: conserved_def)

theorem supply_conservation_witness:
  "list_all well_addressed scenario_ops
   \<and> \<not> isl (run Map.empty scenario_ops)
   \<and> sum_balances (projr (run Map.empty scenario_ops)) = TotalSupply (projr (run Map.empty scenario_ops))"
proof -
  have wa: "list_all well_addressed scenario_ops"
    by (simp add: scenario_ops_def well_addressed_def accounts_of_def is_account_key_def
          totalSupplyKey_def separator_def)
  obtain s where r: "run Map.empty scenario_ops = Inr s"
    using scenario_runs by blast
  from supply_conservation [OF wa r] wa r show ?thesis
    by simp
qed

text \<open>
  Without the proviso the sum and the supply part: the contract stores a balance under the
  raw identifier, so a transfer to the recipient \<open>totalSupply\<close> credits the supply counter.
  After \<open>Mint(10)\<close> and \<open>Transfer(''totalSupply'', 5)\<close> by the same caller the balances add up
  to 5 and the supply reads 15.
\<close>

theorem supply_conservation_counterexample:
  "\<not> isl (run Map.empty aliasing_ops)
   \<and> sum_balances (projr (run Map.empty aliasing_ops)) = 5
   \<and> TotalSupply (projr (run Map.empty aliasing_ops)) = 15
   \<and> sum_balances (projr (run Map.empty aliasing_ops)) \<noteq> TotalSupply (projr (run Map.empty aliasing_ops))"
proof -
  have a: "is_account_key ''alice''" and t: "\<not> is_account_key ''totalSupply''"
    by (simp_all add: is_account_key_def totalSupplyKey_def separator_def)
  have "sum_balances [''alice'' \<mapsto> ''5'', ''totalSupply'' \<mapsto> ''15''] = 5"
    using a t
    by (simp add: sum_balances_upd_other sum_balances_upd_account sum_balances_empty
          balance_def Atoi_examples)
  moreover have "TotalSupply [''alice'' \<mapsto> ''5'', ''totalSupply'' \<mapsto> ''15''] = 15"
    by (simp add: TotalSupply_def balance_def totalSupplyKey_def Atoi_examples)
  ultimately show ?thesis
    by (simp add: aliasing_run)
qed

subsection \<open>C2: balances stay non-negative\<close>

text \<open>
  Claim C2. Mint, Transfer, TransferFrom and Approve never make a balance negative: from
  a ledger in which every balance is \<open>\<ge> 0\<close>, a committed invocation of one of them
  yields a ledger in which every balance is \<open>\<ge> 0\<close>, provided the credited balance plus
  the amount does not exceed the largest Go \<^verbatim>\<open>int\<close>, \<open>2\<^sup>6\<^sup>3 - 1\<close>.
\<close>

theorem balances_stay_nonneg:
  assumes "nonneg_balances s" "\<not> burns i" "credit_fits s i" "submit s i = Inr s'"
  shows "nonneg_balances s'"
proof (cases "request i")
  case (MintCall amount)
  from submit_Mint [OF assms(4) MintCall] have pos: "\<not> amount \<le>s 0"
    and s': "s' = s(invoker i \<mapsto> Itoa (balance s (invoker i) + amount),
                    totalSupplyKey \<mapsto> Itoa (TotalSupply s + amount))"
    by auto
  have fits: "sint (balance s (invoker i)) + sint amount < 2 ^ 63"
    using assms(3) MintCall by (simp add: credit_fits_def)
  have "0 \<le>s balance s' k" if k: "is_account_key k" for k
  proof (cases "k = invoker i")
    case True
    with k assms(1) have "0 \<le>s balance s (invoker i)"
      by (simp add: nonneg_balancesD)
    moreover have "\<not> amount <s 0"
      using pos by (simp add: word_sle_eq word_sless_alt)
    ultimately have "0 \<le>s balance s (invoker i) + amount"
      using fits by (rule credit_nonneg)
    with True k show ?thesis
      by (auto simp: s' balance_upd)
  next
    case False
    with k assms(1) show ?thesis
      by (auto simp: s' balance_upd nonneg_balancesD)
  qed
  then show ?thesis
    by (simp add: nonneg_balances_def)
next
  case (BurnCall amount)
  with assms(2) show ?thesis
    by (simp add: burns_def)
next
  case (TransferCall receiver amount)
  from submit_Transfer [OF assms(4) TransferCall] have d: "receiver \<noteq> invoker i"
    and n: "\<not> amount <s 0" and f: "\<not> balance s (invoker i) <s amount"
    and s': "s' = s(invoker i \<mapsto> Itoa (balance s (invoker i) - amount),
                  receiver \<mapsto> Itoa (balance s receiver + amount))"
    by auto
  have fits: "sint (balance s receiver) + sint amount < 2 ^ 63"
    using assms(3) TransferCall by (simp add: credit_fits_def)
  have "0 \<le>s balance s' k" if k: "is_account_key k" for k
  proof -
    have "0 \<le>s balance s receiver + amount" if "k = receiver"
      using that k assms(1) n fits by (auto intro: credit_nonneg nonneg_balancesD)
    moreover have "0 \<le>s balance s (invoker i) - amount"
      using f n by (rule debit_nonneg)
    moreover have "0 \<le>s balance s k"
      using k assms(1) by (rule nonneg_balancesD [rotated])
    ultimately show ?thesis
      by (auto simp: s' balance_upd)
  qed
  then show ?thesis
    by (simp add: nonneg_balances_def)
next
  case (TransferFromCall owner receiver amount)
  from submit_TransferFrom [OF assms(4) TransferFromCall] obtain key v where
    key: "CreateCompositeKey allowancePrefix [owner, invoker i] = Inr key"
    and d: "receiver \<noteq> owner"
    and n: "\<not> amount <s 0" and f: "\<not> balance s owner <s amount"
    and s': "s' = s(owner \<mapsto> Itoa (balance s owner - amount),
                  receiver \<mapsto> Itoa (balance s receiver + amount), key \<mapsto> v)"
    by auto
  have fits: "sint (balance s receiver) + sint amount < 2 ^ 63"
    using assms(3) TransferFromCall by (simp add: credit_fits_def)
  have "0 \<le>s balance s' k" if k: "is_account_key k" for k
  proof -
    have "k \<noteq> key"
      using k composite_not_account [OF key] by auto
    moreover have "0 \<le>s balance s receiver + amount" if "k = receiver"
      using that k assms(1) n fits by (auto intro: credit_nonneg nonneg_balancesD)
    moreover have "0 \<le>s balance s owner - amount"
      using f n by (rule debit_nonneg)
    moreover have "0 \<le>s balance s k"
      using k assms(1) by (rule nonneg_balancesD [rotated])
    ultimately show ?thesis
      by (auto simp: s' balance_upd)
  qed
  then show ?thesis
    by (simp add: nonneg_balances_def)
next
  case (ApproveCall spender amount)
  from submit_Approve [OF assms(4) ApproveCall] obtain key where
    key: "CreateCompositeKey allowancePrefix [invoker i, spender] = Inr key"
    and s': "s' = s(key \<mapsto> Itoa amount)"
    by blast
  have "0 \<le>s balance s' k" if k: "is_account_key k" for k
  proof -
    have "k \<noteq> key"
      using k composite_not_account [OF key] by auto
    then show ?thesis
      using k assms(1) by (simp add: s' balance_upd nonneg_balancesD)
  qed
  then show ?thesis
    by (simp add: nonneg_balances_def)
qed

theorem balances_stay_nonneg_witness:
  "nonneg_balances opening_ledger
   \<and> \<not> burns \<lparr>invoker = ''alice'', invokerMSP = ''Org1MSP'', request = TransferCall ''bob'' 40\<rparr>
   \<and> credit_fits opening_ledger \<lparr>invoker = ''alice'', invokerMSP = ''Org1MSP'', request = TransferCall ''bob'' 40\<rparr>
   \<and> \<not> isl (submit opening_ledger \<lparr>invoker = ''alice'', invokerMSP = ''Org1MSP'', request = TransferCall ''bob'' 40\<rparr>)
   \<and> nonneg_balances (projr (submit opening_ledger
         \<lparr>invoker = ''alice'', invokerMSP = ''Org1MSP'', request = TransferCall ''bob'' 40\<rparr>))"
proof -
  let ?i = "\<lparr>invoker = ''alice'', invokerMSP = ''Org1MSP'', request = TransferCall ''bob'' 40\<rparr>"
  have n: "nonneg_balances opening_ledger"
    by (simp add: nonneg_balances_def opening_ledger_def balance_def Atoi_examples word_sle_eq)
  have b: "\<not> burns ?i"
    by (simp add: burns_def)
  have f: "credit_fits opening_ledger ?i"
    by (simp add: credit_fits_def opening_ledger_def balance_def)
  obtain s' where s: "submit opening_ledger ?i = Inr s'"
    by (simp add: eval_defs opening_ledger_def Atoi_examples)
  from balances_stay_nonneg [OF n b f s] n b f s show ?thesis
    by simp
qed

text \<open>
  The contract adds without an overflow check: on a ledger where the caller holds
  \<open>2\<^sup>6\<^sup>3 - 1\<close>, \<open>Mint(1)\<close> commits and leaves the caller with \<open>- 2\<^sup>6\<^sup>3\<close>.
\<close>

theorem balances_stay_nonneg_counterexample:
  "nonneg_balances full_ledger
   \<and> \<not> isl (submit full_ledger \<lparr>invoker = ''alice'', invokerMSP = ''Org1MSP'', request = MintCall 1\<rparr>)
   \<and> balance (projr (submit full_ledger
         \<lparr>invoker = ''alice'', invokerMSP = ''Org1MSP'', request = MintCall 1\<rparr>)) ''alice'' <s 0
   \<and> \<not> nonneg_balances (projr (submit full_ledger
         \<lparr>invoker = ''alice'', invokerMSP = ''Org1MSP'', request = MintCall 1\<rparr>))"
proof -
  let ?i = "\<lparr>invoker = ''alice'', invokerMSP = ''Org1MSP'', request = MintCall 1\<rparr>"
  have s: "submit full_ledger ?i = Inr [''alice'' \<mapsto> ''-9223372036854775808'',
                                          ''totalSupply'' \<mapsto> ''-9223372036854775808'']"
    by (simp add: eval_defs full_ledger_def Atoi_examples Itoa_examples)
  have neg: "balance (projr (submit full_ledger ?i)) ''alice'' <s 0"
    by (simp add: s balance_def word_sless_alt Atoi_examples)
  have acc: "is_account_key ''alice''"
    by (simp add: is_account_key_def totalSupplyKey_def separator_def)
  from neg acc have "\<not> nonneg_balances (projr (submit full_ledger ?i))"
    by (auto simp: nonneg_balances_def word_sle_eq word_sless_alt)
  with nonneg_full_ledger neg show ?thesis
    by (simp add: s)
qed

subsection \<open>C3: the allowance check of TransferFrom\<close>

text \<open>
  Claim C3. For every spender (the caller), owner, recipient and amount \<open>> 0\<close>:
  TransferFrom fails with the insufficient-allowance error whenever the stored allowance
  of the spender on the owner is not strictly greater than the amount, so also when the
  two are equal; when the allowance is greater and the underlying transfer succeeds,
  TransferFrom succeeds and the stored allowance becomes allowance minus amount.
\<close>

theorem TransferFrom_allowance:
  assumes "0 <s amount" and "Allowance c owner (clientID c) = Inr a"
  shows "(a \<le>s amount \<longrightarrow> TransferFrom c owner receiver amount = (Some InsufficientAllowance, c))
       \<and> (amount <s a \<longrightarrow> (\<forall>c1. transferCalc c owner receiver amount = (None, c1) \<longrightarrow>
            (\<exists>c'. TransferFrom c owner receiver amount = (None, c')
                \<and> Allowance (begin_tx caller msp (commit c')) owner (clientID c) = Inr (a - amount))))"
proof -
  from assms(2) obtain k where k: "CreateCompositeKey allowancePrefix [owner, clientID c] = Inr k"
    by (auto simp: Allowance_def split: sum.splits)
  let ?cur = "Atoi (case world c k of None \<Rightarrow> [] | Some b \<Rightarrow> b)"
  have a: "a = ?cur"
    using assms(2) Allowance_key [OF k, of c] by simp
  have pos: "\<not> amount \<le>s 0"
    using assms(1) by (simp add: word_sle_eq word_sless_alt)
  have low: "a \<le>s amount \<longrightarrow> TransferFrom c owner receiver amount = (Some InsufficientAllowance, c)"
    using k pos a by (simp add: TransferFrom_def Let_def GetState_def)
  have high: "\<exists>c'. TransferFrom c owner receiver amount = (None, c')
                \<and> Allowance (begin_tx caller msp (commit c')) owner (clientID c) = Inr (a - amount)"
    if "amount <s a" and tc: "transferCalc c owner receiver amount = (None, c1)" for c1
  proof -
    have "\<not> ?cur \<le>s amount"
      using that(1) a by (simp add: word_sle_eq word_sless_alt)
    from TransferFrom_ok [OF k pos this tc] show ?thesis
      using Allowance_key [OF k] a by (simp add: begin_tx_def commit_def)
  qed
  from low high show ?thesis
    by blast
qed

theorem TransferFrom_allowance_witness:
  "0 <s (49 :: goint)
   \<and> Allowance (begin_tx ''bob'' ''Org2MSP'' scenario_store) ''alice'' ''bob'' = Inr 50
   \<and> TransferFrom (begin_tx ''bob'' ''Org2MSP'' scenario_store) ''alice'' ''carol'' 50
       = (Some InsufficientAllowance, begin_tx ''bob'' ''Org2MSP'' scenario_store)
   \<and> (\<exists>c'. TransferFrom (begin_tx ''bob'' ''Org2MSP'' scenario_store) ''alice'' ''carol'' 49 = (None, c')
          \<and> Allowance (begin_tx ''carol'' ''Org2MSP'' (commit c')) ''alice'' ''bob'' = Inr 1)"
proof -
  let ?c = "begin_tx ''bob'' ''Org2MSP'' scenario_store"
  have id: "clientID ?c = ''bob''"
    by (simp add: begin_tx_def)
  have pos: "0 <s (49 :: goint)" "0 <s (50 :: goint)"
    by (simp_all add: word_sless_alt)
  have al: "Allowance ?c ''alice'' (clientID ?c) = Inr 50"
    by (simp add: Allowance_def CreateCompositeKey_def allowancePrefix_def separator_def
          valid_names stub_defs scenario_store_def alice_bob_key_def Atoi_examples)
  have tc: "\<exists>c1. transferCalc ?c ''alice'' ''carol'' 49 = (None, c1)"
    by (simp add: transferCalc_def Let_def stub_defs scenario_store_def alice_bob_key_def
          separator_def Atoi_examples word_sless_alt)
  have le: "(50 :: goint) \<le>s 50" and lt: "(49 :: goint) <s 50"
    by simp_all
  from TransferFrom_allowance [OF pos(2) al, of "''carol''"] le
  have r1: "TransferFrom ?c ''alice'' ''carol'' 50 = (Some InsufficientAllowance, ?c)"
    by blast
  from TransferFrom_allowance [OF pos(1) al, of "''carol''" "''carol''" "''Org2MSP''"] lt tc
  have r2: "\<exists>c'. TransferFrom ?c ''alice'' ''carol'' 49 = (None, c')
          \<and> Allowance (begin_tx ''carol'' ''Org2MSP'' (commit c')) ''alice'' ''bob'' = Inr 1"
    by (auto simp: id)
  from pos(1) al r1 r2 show ?thesis
    by (simp add: id)
qed

subsection \<open>C4: the shared transfer routine\<close>

text \<open>
  Claim C4. For every sender, recipient and amount, \<open>transferCalc\<close> fails when sender
  and recipient are equal or the amount is negative, fails when the sender has no balance
  record, fails when the sender's balance is less than the amount, fails when the sender
  or the recipient is the empty string, and otherwise succeeds, debits the sender by the
  amount and credits the recipient by the amount, a recipient without a record being
  credited from 0.
\<close>

theorem transferCalc_spec:
  "((from = receiver \<or> amount <s 0) \<longrightarrow> fst (transferCalc c from receiver amount) \<noteq> None)
   \<and> (world c from = None \<longrightarrow> fst (transferCalc c from receiver amount) \<noteq> None)
   \<and> (balance (world c) from <s amount \<longrightarrow> fst (transferCalc c from receiver amount) \<noteq> None)
   \<and> ((from = [] \<or> receiver = []) \<longrightarrow> fst (transferCalc c from receiver amount) \<noteq> None)
   \<and> (from \<noteq> receiver \<and> \<not> amount <s 0 \<and> world c from \<noteq> None
        \<and> \<not> balance (world c) from <s amount \<and> from \<noteq> [] \<and> receiver \<noteq> [] \<longrightarrow>
        (\<exists>c'. transferCalc c from receiver amount = (None, c')
           \<and> balance (commit c') from = balance (world c) from - amount
           \<and> balance (commit c') receiver = balance (world c) receiver + amount))"
proof -
  have fails: "fst (transferCalc c from receiver amount) \<noteq> None"
    if "from = receiver \<or> amount <s 0 \<or> world c from = None
        \<or> balance (world c) from <s amount \<or> from = [] \<or> receiver = []"
  proof
    assume "fst (transferCalc c from receiver amount) = None"
    then obtain c' where "transferCalc c from receiver amount = (None, c')"
      by (cases "transferCalc c from receiver amount") simp
    from transferCalc_success [OF this]
    have "from \<noteq> receiver" "\<not> amount <s 0" "world c from \<noteq> None"
      "\<not> balance (world c) from <s amount" "from \<noteq> []" "receiver \<noteq> []"
      by simp_all
    with that show False
      by blast
  qed
  have ok: "\<exists>c'. transferCalc c from receiver amount = (None, c')
           \<and> balance (commit c') from = balance (world c) from - amount
           \<and> balance (commit c') receiver = balance (world c) receiver + amount"
    if "from \<noteq> receiver" "\<not> amount <s 0" "world c from \<noteq> None"
      "\<not> balance (world c) from <s amount" "from \<noteq> []" "receiver \<noteq> []"
    using transferCalc_ok [OF that] that(1) by (simp add: commit_def balance_def)
  from fails ok show ?thesis
    by blast
qed

theorem transferCalc_spec_witness:
  "(\<exists>c'. transferCalc (begin_tx ''alice'' ''Org1MSP'' opening_ledger) ''alice'' ''bob'' 40 = (None, c')
       \<and> balance (commit c') ''alice'' = 60 \<and> balance (commit c') ''bob'' = 40)
   \<and> fst (transferCalc (begin_tx ''alice'' ''Org1MSP'' opening_ledger) ''alice'' ''bob'' 101) \<noteq> None
   \<and> fst (transferCalc (begin_tx ''alice'' ''Org1MSP'' opening_ledger) ''bob'' ''alice'' 1) \<noteq> None
   \<and> fst (transferCalc (begin_tx ''alice'' ''Org1MSP'' opening_ledger) ''alice'' ''alice'' 1) \<noteq> None
   \<and> fst (transferCalc (begin_tx ''alice'' ''Org1MSP'' opening_ledger) ''alice'' [] 1) \<noteq> None"
proof -
  let ?c = "begin_tx ''alice'' ''Org1MSP'' opening_ledger"
  have b: "balance (world ?c) ''alice'' = 100" "balance (world ?c) ''bob'' = 0"
    "world ?c ''alice'' \<noteq> None" "world ?c ''bob'' = None"
    by (simp_all add: begin_tx_def opening_ledger_def balance_def Atoi_examples)
  have c: "\<not> (40 :: goint) <s 0" "\<not> (100 :: goint) <s 40" "(100 :: goint) <s 101"
    by (simp_all add: word_sless_alt)
  from transferCalc_spec [of "''alice''" "''bob''" 40 ?c]
    transferCalc_spec [of "''alice''" "''bob''" 101 ?c]
    transferCalc_spec [of "''bob''" "''alice''" 1 ?c]
    transferCalc_spec [of "''alice''" "''alice''" 1 ?c]
    transferCalc_spec [of "''alice''" "[]" 1 ?c] b c
  show ?thesis
    by simp
qed

text \<open>
  The proviso on the empty string is needed: \<^verbatim>\<open>PutState\<close> refuses the empty key and
  \<open>transferCalc\<close> returns its error. With 100 on \<open>alice\<close>, a transfer of 1 to the empty
  recipient meets none of the three failure conditions of the routine and still fails,
  after the write of the sender's new balance, so nothing is committed.
\<close>

theorem transferCalc_spec_counterexample:
  "''alice'' \<noteq> ([] :: string)
   \<and> \<not> (1 :: goint) <s 0
   \<and> world (begin_tx ''alice'' ''Org1MSP'' opening_ledger) ''alice'' = Some ''100''
   \<and> \<not> balance (world (begin_tx ''alice'' ''Org1MSP'' opening_ledger)) ''alice'' <s 1
   \<and> fst (transferCalc (begin_tx ''alice'' ''Org1MSP'' opening_ledger) ''alice'' [] 1)
       = Some EmptyKey
   \<and> submit opening_ledger
        \<lparr>invoker = ''alice'', invokerMSP = ''Org1MSP'', request = TransferCall [] 1\<rparr>
       = Inl EmptyKey"
  by (simp add: eval_defs opening_ledger_def balance_def Atoi_examples)

subsection \<open>C5: Burn and insufficient funds\<close>

text \<open>
  Claim C5 asks Burn to fail with the insufficient-funds error when the caller's balance
  is less than the amount. Burn has no such check: with a balance of 3, \<open>Burn(5)\<close> by an
  authorized caller commits, the balance becomes \<open>- 2\<close> and the supply \<open>- 5\<close>.
\<close>

theorem Burn_overdraws:
  "submit [''alice'' \<mapsto> ''3''] \<lparr>invoker = ''alice'', invokerMSP = ''Org1MSP'', request = BurnCall 5\<rparr>
     = Inr [''alice'' \<mapsto> ''-2'', ''totalSupply'' \<mapsto> ''-5'']
   \<and> balance [''alice'' \<mapsto> ''3''] ''alice'' <s 5
   \<and> balance [''alice'' \<mapsto> ''-2'', ''totalSupply'' \<mapsto> ''-5''] ''alice'' = - 2
   \<and> TotalSupply [''alice'' \<mapsto> ''-2'', ''totalSupply'' \<mapsto> ''-5''] = - 5"
  by (simp add: eval_defs balance_def TotalSupply_def Atoi_examples Itoa_examples)

subsection \<open>C6: unauthorized Mint\<close>

text \<open>
  Claim C6. For every caller whose organization is not \<open>Org1MSP\<close> and every amount, Mint
  fails with the authorization error, issues no write and no event, and the ledger after
  the failed call is the ledger before it: TotalSupply and every balance are unchanged.
\<close>

theorem Mint_unauthorized:
  assumes "invokerMSP i \<noteq> ''Org1MSP''" and "request i = MintCall amount"
  shows "invoke s i = (Some (Unauthorized (invokerMSP i)), begin_tx (invoker i) (invokerMSP i) s)
       \<and> ledger_after s i = s
       \<and> TotalSupply (ledger_after s i) = TotalSupply s
       \<and> (\<forall>k. balance (ledger_after s i) k = balance s k)"
proof -
  have "invoke s i = (Some (Unauthorized (invokerMSP i)), begin_tx (invoker i) (invokerMSP i) s)"
    using assms by (simp add: invoke_def Mint_def Let_def begin_tx_def)
  then show ?thesis
    by (simp add: ledger_after_def submit_def)
qed

theorem Mint_unauthorized_witness:
  "invokerMSP \<lparr>invoker = ''mallory'', invokerMSP = ''Org2MSP'', request = MintCall 1000\<rparr> \<noteq> ''Org1MSP''
   \<and> submit opening_ledger \<lparr>invoker = ''mallory'', invokerMSP = ''Org2MSP'', request = MintCall 1000\<rparr>
       = Inl (Unauthorized ''Org2MSP'')
   \<and> TotalSupply (ledger_after opening_ledger
         \<lparr>invoker = ''mallory'', invokerMSP = ''Org2MSP'', request = MintCall 1000\<rparr>) = 100
   \<and> balance (ledger_after opening_ledger
         \<lparr>invoker = ''mallory'', invokerMSP = ''Org2MSP'', request = MintCall 1000\<rparr>) ''mallory'' = 0"
proof -
  let ?i = "\<lparr>invoker = ''mallory'', invokerMSP = ''Org2MSP'', request = MintCall 1000\<rparr>"
  have m: "invokerMSP ?i \<noteq> ''Org1MSP''" and r: "request ?i = MintCall 1000"
    by simp_all
  have b: "TotalSupply opening_ledger = 100" "balance opening_ledger ''mallory'' = 0"
    by (simp_all add: TotalSupply_def totalSupplyKey_def balance_def opening_ledger_def Atoi_examples)
  from Mint_unauthorized [OF m r, of opening_ledger] b show ?thesis
    by (simp add: submit_def)
qed

subsection \<open>C7: Approve, then Allowance\<close>



subsection \<open>C8: a transfer and its return\<close>

text \<open>
  Claim C8. For all accounts \<open>a\<close> and \<open>b\<close> and every amount \<open>n\<close> for which
  \<open>Transfer\<close> of \<open>n\<close> from \<open>a\<close> to \<open>b\<close> commits: whenever the transfer of \<open>n\<close> back from
  \<open>b\<close> to \<open>a\<close>, run next, commits as well, both balances are what they were before the
  first transfer (an account \<open>b\<close> without a record then holds a stored 0); and the
  transfer back does commit whenever the balance of \<open>b\<close> before the first transfer is
  \<open>\<ge> 0\<close> and that balance plus \<open>n\<close> does not exceed \<open>2\<^sup>6\<^sup>3 - 1\<close>.
\<close>

theorem transfer_round_trip:
  assumes "submit s \<lparr>invoker = a, invokerMSP = ma, request = TransferCall b n\<rparr> = Inr s1"
  shows "(0 \<le>s balance s b \<and> sint (balance s b) + sint n < 2 ^ 63 \<longrightarrow>
            \<not> isl (submit s1 \<lparr>invoker = b, invokerMSP = mb, request = TransferCall a n\<rparr>))
       \<and> (\<forall>s2. submit s1 \<lparr>invoker = b, invokerMSP = mb, request = TransferCall a n\<rparr> = Inr s2 \<longrightarrow>
            balance s2 a = balance s a \<and> balance s2 b = balance s b)"
proof -
  let ?ret = "\<lparr>invoker = b, invokerMSP = mb, request = TransferCall a n\<rparr>"
  from submit_Transfer [OF assms] have d: "a \<noteq> b" and n: "\<not> n <s 0"
    and s1: "s1 = s(a \<mapsto> Itoa (balance s a - n), b \<mapsto> Itoa (balance s b + n))"
    by auto
  have bal: "balance s1 b = balance s b + n" "balance s1 a = balance s a - n"
    using d by (simp_all add: s1 balance_upd)
  have commits: "\<not> isl (submit s1 ?ret)"
    if z: "0 \<le>s balance s b" and f: "sint (balance s b) + sint n < 2 ^ 63"
  proof -
    have funds: "\<not> balance s1 b <s n"
      using credit_nonneg(2) [OF z n f] bal by simp
    have rec: "s1 (invoker ?ret) \<noteq> None"
      by (simp add: s1)
    have "submit s1 ?ret = Inr (s1(b \<mapsto> Itoa (balance s1 b - n), a \<mapsto> Itoa (balance s1 a + n)))"
      using submit_Transfer_ok [of ?ret a n s1] submit_Transfer_keys [OF assms] d n funds rec
      by simp
    then show ?thesis
      by simp
  qed
  have restored: "balance s2 a = balance s a \<and> balance s2 b = balance s b"
    if "submit s1 ?ret = Inr s2" for s2
  proof -
    from submit_Transfer [OF that, of a n]
    have "s2 = s1(b \<mapsto> Itoa (balance s1 b - n), a \<mapsto> Itoa (balance s1 a + n))"
      by simp
    then show ?thesis
      using d bal by (simp add: balance_upd)
  qed
  from commits restored show ?thesis
    by blast
qed

theorem transfer_round_trip_witness:
  "\<not> isl (submit opening_ledger \<lparr>invoker = ''alice'', invokerMSP = ''Org1MSP'', request = TransferCall ''bob'' 40\<rparr>)
   \<and> 0 \<le>s balance opening_ledger ''bob''
   \<and> sint (balance opening_ledger ''bob'') + sint (40 :: goint) < 2 ^ 63
   \<and> \<not> isl (submit (projr (submit opening_ledger
                \<lparr>invoker = ''alice'', invokerMSP = ''Org1MSP'', request = TransferCall ''bob'' 40\<rparr>))
              \<lparr>invoker = ''bob'', invokerMSP = ''Org2MSP'', request = TransferCall ''alice'' 40\<rparr>)
   \<and> balance (projr (submit (projr (submit opening_ledger
                \<lparr>invoker = ''alice'', invokerMSP = ''Org1MSP'', request = TransferCall ''bob'' 40\<rparr>))
              \<lparr>invoker = ''bob'', invokerMSP = ''Org2MSP'', request = TransferCall ''alice'' 40\<rparr>))
         ''alice'' = 100
   \<and> balance (projr (submit (projr (submit opening_ledger
                \<lparr>invoker = ''alice'', invokerMSP = ''Org1MSP'', request = TransferCall ''bob'' 40\<rparr>))
              \<lparr>invoker = ''bob'', invokerMSP = ''Org2MSP'', request = TransferCall ''alice'' 40\<rparr>))
         ''bob'' = 0"
proof -
  let ?i = "\<lparr>invoker = ''alice'', invokerMSP = ''Org1MSP'', request = TransferCall ''bob'' 40\<rparr>"
  let ?r = "\<lparr>invoker = ''bob'', invokerMSP = ''Org2MSP'', request = TransferCall ''alice'' 40\<rparr>"
  obtain s1 where s: "submit opening_ledger ?i = Inr s1"
    by (simp add: eval_defs opening_ledger_def Atoi_examples)
  have z: "0 \<le>s balance opening_ledger ''bob''"
    and f: "sint (balance opening_ledger ''bob'') + sint (40 :: goint) < 2 ^ 63"
    by (simp_all add: opening_ledger_def balance_def)
  have b: "balance opening_ledger ''alice'' = 100" "balance opening_ledger ''bob'' = 0"
    by (simp_all add: opening_ledger_def balance_def Atoi_examples)
  note rt = transfer_round_trip [OF s, of "''Org2MSP''"]
  from rt z f have "\<not> isl (submit s1 ?r)"
    by blast
  then obtain s2 where s2: "submit s1 ?r = Inr s2"
    by (cases "submit s1 ?r") simp_all
  from rt s2 have "balance s2 ''alice'' = balance opening_ledger ''alice''"
    "balance s2 ''bob'' = balance opening_ledger ''bob''"
    by blast+
  with s s2 z f b show ?thesis
    by simp
qed

text \<open>
  When the credit overflows the way back is closed: with 1 on \<open>alice\<close> and \<open>2\<^sup>6\<^sup>3 - 1\<close> on
  \<open>bob\<close> (each has minted as much), the transfer of 1 to \<open>bob\<close> commits and wraps his
  balance to \<open>- 2\<^sup>6\<^sup>3\<close>; the transfer of 1 back fails for insufficient funds and \<open>alice\<close>
  is left with 0.
\<close>

theorem transfer_round_trip_counterexample:
  "\<not> isl (submit brim_ledger \<lparr>invoker = ''alice'', invokerMSP = ''Org2MSP'', request = TransferCall ''bob'' 1\<rparr>)
   \<and> submit (projr (submit brim_ledger
                \<lparr>invoker = ''alice'', invokerMSP = ''Org2MSP'', request = TransferCall ''bob'' 1\<rparr>))
            \<lparr>invoker = ''bob'', invokerMSP = ''Org2MSP'', request = TransferCall ''alice'' 1\<rparr>
       = Inl (InsufficientFunds ''bob'')
   \<and> balance brim_ledger ''alice'' = 1
   \<and> balance (ledger_after (ledger_after brim_ledger
                \<lparr>invoker = ''alice'', invokerMSP = ''Org2MSP'', request = TransferCall ''bob'' 1\<rparr>)
            \<lparr>invoker = ''bob'', invokerMSP = ''Org2MSP'', request = TransferCall ''alice'' 1\<rparr>) ''alice'' = 0"
proof -
  let ?ab = "\<lparr>invoker = ''alice'', invokerMSP = ''Org2MSP'', request = TransferCall ''bob'' 1\<rparr>"
  let ?ba = "\<lparr>invoker = ''bob'', invokerMSP = ''Org2MSP'', request = TransferCall ''alice'' 1\<rparr>"
  let ?s1 = "brim_ledger(''alice'' \<mapsto> ''0'', ''bob'' \<mapsto> ''-9223372036854775808'')"
  have s1: "submit brim_ledger ?ab = Inr ?s1"
    by (simp add: eval_defs brim_ledger_def Atoi_examples Itoa_examples)
  have s2: "submit ?s1 ?ba = Inl (InsufficientFunds ''bob'')"
    by (simp add: eval_defs Atoi_examples)
  have "balance brim_ledger ''alice'' = 1"
    by (simp add: brim_ledger_def balance_def Atoi_examples)
  moreover have "balance ?s1 ''alice'' = 0"
    by (simp add: balance_def Atoi_examples)
  ultimately show ?thesis
    by (simp add: ledger_after_def s1 s2)
qed

subsection \<open>C9: the event of Burn\<close>

text \<open>
  Claim C9. Whenever Burn succeeds, the Transfer event it sets has \<open>from = ''0x0''\<close> and
  \<open>to\<close> the burner, and Mint by the same caller with the same amount succeeds with the
  very same event: a listener cannot tell a burn from a mint.
\<close>

theorem Burn_event_like_Mint:
  assumes "Burn c amount = (None, c')"
  shows "txEvent c' = Some (''Transfer'', \<lparr>From = ''0x0'', To = clientID c, Value = amount\<rparr>)
       \<and> (\<exists>c''. Mint c amount = (None, c'') \<and> txEvent c'' = txEvent c')"
  using assms
  by (auto simp: Burn_def Mint_def Let_def stub_defs split: if_splits)

theorem Burn_event_like_Mint_witness:
  "\<exists>c'. Burn (begin_tx ''alice'' ''Org1MSP'' scenario_store) 30 = (None, c')
     \<and> txEvent c' = Some (''Transfer'', \<lparr>From = ''0x0'', To = ''alice'', Value = 30\<rparr>)
     \<and> (\<exists>c''. Mint (begin_tx ''alice'' ''Org1MSP'' scenario_store) 30 = (None, c'') \<and> txEvent c'' = txEvent c')"
proof -
  let ?c = "begin_tx ''alice'' ''Org1MSP'' scenario_store"
  have "\<exists>c'. Burn ?c 30 = (None, c')"
    by (simp add: Burn_def Let_def begin_tx_def PutState_def word_sle_eq)
  then obtain c' where b: "Burn ?c 30 = (None, c')" ..
  from Burn_event_like_Mint [OF b] b show ?thesis
    by (auto simp: begin_tx_def)
qed

subsection \<open>C10: the amount 0\<close>

text \<open>
  Claim C10. For every caller whose balance record is \<open>\<ge> 0\<close> and every recipient other
  than the caller, neither of them the empty string, \<open>Transfer(recipient, 0)\<close> succeeds,
  leaves both balances unchanged and sets a Transfer event with value 0; Transfer rejects
  an amount \<open>< 0\<close>, whereas TransferFrom rejects every amount \<open>\<le> 0\<close>.
\<close>

theorem Transfer_zero_amount:
  assumes "world c (clientID c) = Some b" and "0 \<le>s Atoi b" and "receiver \<noteq> clientID c"
    and "clientID c \<noteq> []" and "receiver \<noteq> []"
  shows "(\<exists>c'. Transfer c receiver 0 = (None, c')
            \<and> balance (commit c') (clientID c) = balance (world c) (clientID c)
            \<and> balance (commit c') receiver = balance (world c) receiver
            \<and> txEvent c' = Some (''Transfer'', \<lparr>From = clientID c, To = receiver, Value = 0\<rparr>))
       \<and> (\<forall>amount. amount <s 0 \<longrightarrow> fst (Transfer c receiver amount) = Some NegativeAmount)
       \<and> (\<forall>owner amount. amount \<le>s 0 \<longrightarrow>
             fst (TransferFrom c owner receiver amount) = Some AmountNotPositive)"
proof -
  have funds: "\<not> balance (world c) (clientID c) <s 0"
    using assms(1,2) by (simp add: balance_def word_sle_eq word_sless_alt)
  have d: "clientID c \<noteq> receiver"
    using assms(3) by simp
  have z: "\<not> (0 :: goint) <s 0"
    by simp
  have rec: "world c (clientID c) \<noteq> None"
    using assms(1) by simp
  from transferCalc_ok [OF d z rec funds assms(4,5)]
  have zero: "\<exists>c'. Transfer c receiver 0 = (None, c')
            \<and> balance (commit c') (clientID c) = balance (world c) (clientID c)
            \<and> balance (commit c') receiver = balance (world c) receiver
            \<and> txEvent c' = Some (''Transfer'', \<lparr>From = clientID c, To = receiver, Value = 0\<rparr>)"
    using d by (simp add: Transfer_def SetEvent_def commit_def balance_def)
  have neg: "fst (Transfer c receiver amount) = Some NegativeAmount" if "amount <s 0" for amount
    using that d by (simp add: Transfer_def transferCalc_def)
  have tf: "fst (TransferFrom c owner receiver amount) = Some AmountNotPositive"
    if "amount \<le>s 0" for owner amount
    using that by (simp add: TransferFrom_def)
  from zero neg tf show ?thesis
    by blast
qed

theorem Transfer_zero_amount_witness:
  "world (begin_tx ''alice'' ''Org1MSP'' opening_ledger) ''alice'' = Some ''100''
   \<and> 0 \<le>s Atoi ''100''
   \<and> (\<exists>c'. Transfer (begin_tx ''alice'' ''Org1MSP'' opening_ledger) ''bob'' 0 = (None, c')
          \<and> balance (commit c') ''alice'' = 100
          \<and> balance (commit c') ''bob'' = 0
          \<and> txEvent c' = Some (''Transfer'', \<lparr>From = ''alice'', To = ''bob'', Value = 0\<rparr>))
   \<and> fst (Transfer (begin_tx ''alice'' ''Org1MSP'' opening_ledger) ''bob'' (- 1)) = Some NegativeAmount
   \<and> fst (TransferFrom (begin_tx ''alice'' ''Org1MSP'' opening_ledger) ''carol'' ''bob'' 0)
       = Some AmountNotPositive"
proof -
  let ?c = "begin_tx ''alice'' ''Org1MSP'' opening_ledger"
  have id: "clientID ?c = ''alice''"
    by (simp add: begin_tx_def)
  have w: "world ?c (clientID ?c) = Some ''100''"
    by (simp add: begin_tx_def opening_ledger_def)
  have p: "0 \<le>s Atoi ''100''"
    by (simp add: Atoi_examples word_sle_eq)
  have d: "''bob'' \<noteq> clientID ?c"
    by (simp add: begin_tx_def)
  have b: "balance (world ?c) ''alice'' = 100" "balance (world ?c) ''bob'' = 0"
    by (simp_all add: begin_tx_def opening_ledger_def balance_def Atoi_examples)
  have m: "(- 1 :: goint) <s 0" and z: "(0 :: goint) \<le>s 0"
    by (simp_all add: word_sless_alt)
  have ne: "clientID ?c \<noteq> []" "''bob'' \<noteq> ([] :: string)"
    by (simp_all add: begin_tx_def)
  from Transfer_zero_amount [OF w p d ne] m z w p b show ?thesis
    by (simp add: id)
qed

text \<open>
  A caller whose record is negative is refused even the amount 0, by the funds check:
  after \<open>Burn(2)\<close> on the empty ledger the caller's record reads \<open>- 2\<close>, and
  \<open>Transfer(''bob'', 0)\<close> fails for insufficient funds.
\<close>

theorem Transfer_zero_amount_counterexample:
  "world (begin_tx ''alice'' ''Org1MSP'' overdrawn_ledger) ''alice'' = Some ''-2''
   \<and> ''bob'' \<noteq> clientID (begin_tx ''alice'' ''Org1MSP'' overdrawn_ledger)
   \<and> ''bob'' \<noteq> ([] :: string)
   \<and> clientID (begin_tx ''alice'' ''Org1MSP'' overdrawn_ledger) \<noteq> []
   \<and> Transfer (begin_tx ''alice'' ''Org1MSP'' overdrawn_ledger) ''bob'' 0
       = (Some (InsufficientFunds ''alice''), begin_tx ''alice'' ''Org1MSP'' overdrawn_ledger)"
  by (simp add: overdrawn_ledger_eq Transfer_def transferCalc_def Let_def GetState_def
        begin_tx_def word_sless_alt Atoi_examples)

end
